theory Spec2Isabelle
  imports Main "HOL-Library.Word"
begin

section \<open>JavaScript values\<close>

text \<open>
  The engine is dynamically typed at its boundary: a rule result is \<open>any\<close>, a rule entry is
  either a function or an object with a \<open>rule\<close> key, a field value is arbitrary plain data.
  Values are therefore one datatype. A promise is represented by the way it eventually
  settles (\<open>Pending\<close>: it never settles). A function value is a reference into a table of
  callables that the evaluating functions take as a parameter.
\<close>

datatype ('a, 'e) settle = Fulfilled 'a | Rejected 'e | Pending

datatype jsval =
    VUndefined
  | VNull
  | VBool bool
  | VNum int
  | VStr string
  | VArr "jsval list"
  | VObj "(string \<times> jsval) list"
  | VFun nat
  | VPromise "(jsval, jsval) settle"

datatype error =
    MissingInitState
  | ReservedKey string
  | FormNotFound string
  | TypeError
  | Thrown jsval

text \<open>\<open>InternalValidationResult\<close>: \<open>{valid, errors}\<close>.\<close>

record internalValidationResult =
  valid :: bool
  errors :: "jsval list"

text \<open>\<open>x ?? d\<close>, truthiness, \<open>Array.isArray\<close>, \<open>instanceof Promise\<close>.\<close>

definition nullish :: "jsval \<Rightarrow> bool" where
  "nullish v = (v = VUndefined \<or> v = VNull)"

definition nullish_or :: "jsval \<Rightarrow> jsval \<Rightarrow> jsval" where
  "nullish_or v d = (if nullish v then d else v)"

fun truthy :: "jsval \<Rightarrow> bool" where
  "truthy VUndefined = False"
| "truthy VNull = False"
| "truthy (VBool b) = b"
| "truthy (VNum n) = (n \<noteq> 0)"
| "truthy (VStr s) = (s \<noteq> [])"
| "truthy _ = True"

fun isArray :: "jsval \<Rightarrow> bool" where
  "isArray (VArr xs) = True"
| "isArray _ = False"

fun isPromise :: "jsval \<Rightarrow> bool" where
  "isPromise (VPromise p) = True"
| "isPromise _ = False"

text \<open>
  Property read \<open>o.k\<close> on a value that is not \<open>undefined\<close> or \<open>null\<close>: an object yields the
  property or \<open>undefined\<close>; the other values carry none of the keys the engine reads.
\<close>

fun get_prop :: "jsval \<Rightarrow> string \<Rightarrow> jsval" where
  "get_prop (VObj kvs) k = (case map_of kvs k of Some v \<Rightarrow> v | None \<Rightarrow> VUndefined)"
| "get_prop _ k = VUndefined"


text \<open>\<open>Array.prototype.flat()\<close> with the default depth 1.\<close>

fun flat1 :: "jsval \<Rightarrow> jsval list" where
  "flat1 (VArr xs) = xs"
| "flat1 v = [v]"

definition flat :: "jsval list \<Rightarrow> jsval list" where
  "flat xs = concat (map flat1 xs)"

section \<open>Result normalization\<close>

text \<open>\<open>createInternalValidationResults\<close> with its two local functions.\<close>

definition mapErrors :: "jsval \<Rightarrow> jsval" where
  "mapErrors e =
     (if e = VBool False then VStr ''not valid''
      else if e = VBool True then VUndefined
      else e)"

definition errorFilter :: "jsval \<Rightarrow> bool" where
  "errorFilter e = (e \<noteq> VUndefined \<and> e \<noteq> VNull)"

definition createInternalValidationResults :: "jsval \<Rightarrow> internalValidationResult" where
  "createInternalValidationResults errs =
     (let es = (if isArray errs
                then filter errorFilter (map mapErrors (flat1 errs))
                else filter errorFilter (map mapErrors [errs]))
      in \<lparr> valid = (length es = 0), errors = es \<rparr>)"

text \<open>What one raw value contributes, in the words of the specification.\<close>

definition contributes :: "jsval \<Rightarrow> jsval list" where
  "contributes e =
     (if e = VBool True \<or> e = VUndefined \<or> e = VNull then []
      else if e = VBool False then [VStr ''not valid'']
      else [e])"

section \<open>Callables\<close>

text \<open>
  A callable is a JavaScript function: whether it was declared \<open>async\<close>
  (\<open>constructor.name === "AsyncFunction"\<close>) and what a call does. A call receives the
  positional arguments and the state of the world outside the engine (\<open>'w\<close>: whatever the
  rule reads and writes); it throws (\<open>Inl\<close>) or returns a value (\<open>Inr\<close>) and leaves a new
  world. Calling a value that is not a function raises a \<open>TypeError\<close>.
\<close>

record 'w callable =
  isAsync :: bool
  invoke :: "jsval list \<Rightarrow> 'w \<Rightarrow> (error + jsval) \<times> 'w"

type_synonym 'w fenv = "nat \<Rightarrow> 'w callable"

fun call :: "'w fenv \<Rightarrow> jsval \<Rightarrow> jsval list \<Rightarrow> 'w \<Rightarrow> (error + jsval) \<times> 'w" where
  "call F (VFun i) args w = invoke (F i) args w"
| "call F _ args w = (Inl TypeError, w)"


section \<open>Rule normalizer\<close>




section \<open>Rule evaluator\<close>

text \<open>
  \<open>rule.rule?.constructor.name === "AsyncFunction"\<close>: true of a function declared
  \<open>async\<close>, and of an object that owns a \<open>constructor\<close> whose \<open>name\<close> is that string; an
  object without a \<open>constructor\<close> of its own inherits \<open>Object\<close>.
\<close>

fun isAsyncFunction :: "'w fenv \<Rightarrow> jsval \<Rightarrow> bool" where
  "isAsyncFunction F (VFun i) = isAsync (F i)"
| "isAsyncFunction F (VObj kvs) =
     (case map_of kvs ''constructor'' of
        None \<Rightarrow> False
      | Some c \<Rightarrow> get_prop c ''name'' = VStr ''AsyncFunction'')"
| "isAsyncFunction F _ = False"

text \<open>
  \<open>processValidationObject\<close>. Reading \<open>rule.autoValidate\<close> of \<open>undefined\<close> or \<open>null\<close> raises a
  \<open>TypeError\<close>. The source calls \<open>rule.rule(...callArguments)\<close> once for \<open>result\<close> and a
  second time in its \<open>return\<close> statement; the second call starts from the world the first
  one left.
\<close>

definition noAutoValidation :: "jsval \<Rightarrow> bool \<Rightarrow> bool" where
  "noAutoValidation r shouldValidate =
     (\<not> truthy (nullish_or (get_prop r ''autoValidate'') (VBool True)) \<and> \<not> shouldValidate)"

definition noPromiseValidation :: "'w fenv \<Rightarrow> jsval \<Rightarrow> bool \<Rightarrow> bool" where
  "noPromiseValidation F r prom = (isAsyncFunction F (get_prop r ''rule'') \<and> \<not> prom)"

definition processValidationObject ::
  "'w fenv \<Rightarrow> jsval \<Rightarrow> jsval list \<Rightarrow> bool \<Rightarrow> bool \<Rightarrow> 'w \<Rightarrow> (error + jsval) \<times> 'w" where
  "processValidationObject F r callArguments shouldValidate prom w =
     (if nullish r then (Inl TypeError, w)
      else if \<not> truthy (get_prop r ''rule'') \<or> noAutoValidation r shouldValidate
              \<or> noPromiseValidation F r prom
      then (Inr VUndefined, w)
      else (case call F (get_prop r ''rule'') callArguments w of
              (Inl e, w1) \<Rightarrow> (Inl e, w1)
            | (Inr result, w1) \<Rightarrow>
                if isPromise result \<and> \<not> prom then (Inr VUndefined, w1)
                else call F (get_prop r ''rule'') callArguments w1))"

text \<open>\<open>obj.map((v) => processValidationObject(v, ...))\<close>: left to right, a throw ends it.\<close>

fun mapRules ::
  "'w fenv \<Rightarrow> jsval list \<Rightarrow> jsval list \<Rightarrow> bool \<Rightarrow> bool \<Rightarrow> 'w \<Rightarrow> (error + jsval list) \<times> 'w" where
  "mapRules F [] args sv prom w = (Inr [], w)"
| "mapRules F (v # vs) args sv prom w =
     (case processValidationObject F v args sv prom w of
        (Inl e, w1) \<Rightarrow> (Inl e, w1)
      | (Inr x, w1) \<Rightarrow>
          (case mapRules F vs args sv prom w1 of
             (Inl e, w2) \<Rightarrow> (Inl e, w2)
           | (Inr xs, w2) \<Rightarrow> (Inr (x # xs), w2)))"

text \<open>
  \<open>Promise.all\<close>: a value that is not a promise counts as fulfilled; the result rejects as
  soon as one element rejects (even when others never settle), fulfils with all values when
  all fulfil, and stays pending otherwise. JavaScript passes on the reason of the rejection
  that happens first in time; here it is the first in list order. The only handler the
  engine installs ignores the reason.
\<close>

fun awaited :: "jsval \<Rightarrow> (jsval, jsval) settle" where
  "awaited (VPromise p) = p"
| "awaited v = Fulfilled v"

fun promise_all :: "jsval list \<Rightarrow> (jsval list, jsval) settle" where
  "promise_all [] = Fulfilled []"
| "promise_all (v # vs) =
     (case awaited v of
        Rejected e \<Rightarrow> Rejected e
      | Fulfilled x \<Rightarrow>
          (case promise_all vs of
             Fulfilled xs \<Rightarrow> Fulfilled (x # xs)
           | Rejected e \<Rightarrow> Rejected e
           | Pending \<Rightarrow> Pending)
      | Pending \<Rightarrow>
          (case promise_all vs of
             Rejected e \<Rightarrow> Rejected e
           | _ \<Rightarrow> Pending))"

text \<open>\<open>validationPromise\<close>: \<open>Promise.all(validation).then(...).catch(...)\<close>.\<close>

definition validationPromise :: "jsval list \<Rightarrow> (internalValidationResult, jsval) settle" where
  "validationPromise validation =
     (case promise_all validation of
        Fulfilled result \<Rightarrow> Fulfilled (createInternalValidationResults (VArr (flat result)))
      | Rejected e \<Rightarrow> Fulfilled (createInternalValidationResults (VArr []))
      | Pending \<Rightarrow> Pending)"

text \<open>
  \<open>validateInternal\<close> returns the result itself or, with \<open>options.promise\<close>, a promise of
  it. \<open>options\<close> and both of its keys are optional.
\<close>

record validateOptions =
  opt_promise :: "bool option"
  opt_alwaysValidate :: "bool option"

datatype 'a deferred = Now 'a | Later "('a, jsval) settle"

definition promiseOf :: "validateOptions option \<Rightarrow> bool" where
  "promiseOf opts = (case opts of None \<Rightarrow> False
                     | Some p \<Rightarrow> (case opt_promise p of None \<Rightarrow> False | Some b \<Rightarrow> b))"

definition alwaysValidateOf :: "validateOptions option \<Rightarrow> bool" where
  "alwaysValidateOf opts = (case opts of None \<Rightarrow> False
                     | Some p \<Rightarrow> (case opt_alwaysValidate p of None \<Rightarrow> False | Some b \<Rightarrow> b))"

definition validateInternal ::
  "'w fenv \<Rightarrow> jsval list option \<Rightarrow> jsval list \<Rightarrow> validateOptions option \<Rightarrow> 'w
     \<Rightarrow> (error + internalValidationResult deferred) \<times> 'w" where
  "validateInternal F obj validateFnArguments opts w =
     (case obj of
        None \<Rightarrow>
          (if promiseOf opts then (Inr (Later (Fulfilled \<lparr> valid = True, errors = [] \<rparr>)), w)
           else (Inr (Now \<lparr> valid = True, errors = [] \<rparr>), w))
      | Some rules \<Rightarrow>
          (case mapRules F rules validateFnArguments (alwaysValidateOf opts) (promiseOf opts) w of
             (Inl e, w1) \<Rightarrow> (Inl e, w1)
           | (Inr xs, w1) \<Rightarrow>
               (let validationResults = flat xs in
                if promiseOf opts then (Inr (Later (validationPromise validationResults)), w1)
                else (Inr (Now (createInternalValidationResults
                                  (VArr (flat validationResults)))), w1))))"

section \<open>Deep clone\<close>

text \<open>
  \<open>cloneDeep\<close>: a value whose \<open>typeof\<close> is not \<open>"object"\<close>, and \<open>null\<close>, is returned as it
  is; an array is mapped; of any other object the own enumerable properties are cloned into
  a new object (a promise has none).
\<close>

primrec cloneDeep :: "jsval \<Rightarrow> jsval" where
  "cloneDeep VUndefined = VUndefined"
| "cloneDeep VNull = VNull"
| "cloneDeep (VBool b) = VBool b"
| "cloneDeep (VNum n) = VNum n"
| "cloneDeep (VStr s) = VStr s"
| "cloneDeep (VArr xs) = VArr (map cloneDeep xs)"
| "cloneDeep (VObj kvs) = VObj (map (map_prod id cloneDeep) kvs)"
| "cloneDeep (VFun i) = VFun i"
| "cloneDeep (VPromise p) = VObj []"

section \<open>Fields and form state\<close>

text \<open>
  \<open>InternalField\<close>: the public keys of \<open>Field\<close> and the two symbol keys. The accessor
  \<open>rules\<close> reads and writes \<open>fieldRules\<close>. \<open>errors\<close> is declared an array and
  \<open>createField\<close> sets it, so \<open>field.errors ?? []\<close> is \<open>field.errors\<close>.
\<close>

record field =
  field_value :: jsval
  field_name :: string
  fieldRules :: "jsval list"
  field_dirty :: bool
  field_touched :: bool
  field_valid :: bool
  field_focused :: bool
  field_errors :: "jsval list"
  field_pending :: bool
  fieldPrevValue :: jsval

text \<open>
  Field objects are shared: the form state, the handle and the closures of a validation
  pass all hold references to the same object. The form state therefore keeps the objects
  in a store (\<open>heap\<close>, addressed by position) and \<open>form_fields\<close> maps each key, in the order
  \<open>Object.keys\<close> enumerates them, to an entry: the address of a field object, or, for an
  array whose elements are all objects, the records of field objects it holds. Every
  address in \<open>form_fields\<close> is a position of \<open>heap\<close>: a JavaScript reference never dangles.
\<close>

datatype entry = Single nat | Group "(string \<times> nat) list list"

record formState =
  form_fields :: "(string \<times> entry) list"
  heap :: "field list"
  form_valid :: bool
  form_dirty :: bool
  form_touched :: bool
  form_errors :: "jsval list"
  form_pending :: bool
  initialFields :: "(string \<times> jsval) list"
  form_errorFields :: "(string \<times> jsval) list"
  formRules :: "jsval list"
  form_context :: jsval
  formIgnoreDirty :: bool
  formIgnoreValidation :: bool
  formValidationLock :: "32 word option"

text \<open>\<open>FormValidationResult\<close>: \<open>{valid, errors, errorFields}\<close>.\<close>

record formValidationResult = internalValidationResult +
  errorFields :: "(string \<times> jsval) list"

text \<open>\<open>{...acc, [key]: v}\<close>: a key the object has keeps its place, a new key goes last.\<close>

fun objSet :: "(string \<times> jsval) list \<Rightarrow> string \<Rightarrow> jsval \<Rightarrow> (string \<times> jsval) list" where
  "objSet [] key v = [(key, v)]"
| "objSet ((k, x) # kvs) key v = (if k = key then (k, v) # kvs else (k, x) # objSet kvs key v)"

section \<open>Form aggregator\<close>

text \<open>
  \<open>getAllFields\<close>: the entries that are not arrays of objects, then the values of every
  record of every array of objects.
\<close>

fun plainOf :: "entry \<Rightarrow> nat list" where
  "plainOf (Single a) = [a]"
| "plainOf (Group recs) = []"

fun groupOf :: "entry \<Rightarrow> (string \<times> nat) list list" where
  "groupOf (Single a) = []"
| "groupOf (Group recs) = recs"

definition plainFields :: "formState \<Rightarrow> nat list" where
  "plainFields fs = concat (map (plainOf \<circ> snd) (form_fields fs))"

definition nestedFields :: "formState \<Rightarrow> nat list" where
  "nestedFields fs = concat (map (map snd) (concat (map (groupOf \<circ> snd) (form_fields fs))))"

definition getAllFields :: "formState \<Rightarrow> nat list" where
  "getAllFields fs = plainFields fs @ nestedFields fs"

text \<open>
  \<open>formState.value.fields[key].valid\<close> and \<open>.errors\<close>, as \<open>collectErrors\<close> reads them for
  \<open>errorFields\<close>: an array has neither property, so both reads give \<open>undefined\<close>.
\<close>

fun readValid :: "field list \<Rightarrow> entry \<Rightarrow> jsval" where
  "readValid h (Single a) = VBool (field_valid (h ! a))"
| "readValid h (Group recs) = VUndefined"

fun readErrors :: "field list \<Rightarrow> entry \<Rightarrow> jsval" where
  "readErrors h (Single a) = VArr (field_errors (h ! a))"
| "readErrors h (Group recs) = VUndefined"

definition errorFieldsStep ::
  "field list \<Rightarrow> (string \<times> jsval) list \<Rightarrow> string \<times> entry \<Rightarrow> (string \<times> jsval) list" where
  "errorFieldsStep h acc ke =
     (if \<not> truthy (readValid h (snd ke)) then objSet acc (fst ke) (readErrors h (snd ke))
      else acc)"

definition collectErrors ::
  "formState \<Rightarrow> internalValidationResult option \<Rightarrow> formValidationResult \<times> formState" where
  "collectErrors fs validationResults =
     (let flds = getAllFields fs;
          v = (list_all (\<lambda>a. field_valid (heap fs ! a)) flds
               \<and> (case validationResults of None \<Rightarrow> True | Some r \<Rightarrow> valid r));
          es = concat (map (\<lambda>a. field_errors (heap fs ! a)) flds)
               @ (case validationResults of None \<Rightarrow> [] | Some r \<Rightarrow> errors r);
          ef = foldl (errorFieldsStep (heap fs)) [] (form_fields fs)
      in (\<lparr> valid = v, errors = es, errorFields = ef \<rparr>,
          fs \<lparr> form_errors := es, form_errorFields := ef \<rparr>))"

section \<open>Validation coordinator\<close>

text \<open>
  \<open>createValidateFieldFunction\<close> stores the identifier \<open>generateRandomId\<close> drew as the
  form's validation lock. The identifier is the hexadecimal rendering of one random
  32-bit number, so it is identified with that number; it is an argument here.
\<close>

definition createValidateFieldFunction :: "32 word \<Rightarrow> formState \<Rightarrow> formState" where
  "createValidateFieldFunction newId fs = fs \<lparr> formValidationLock := Some newId \<rparr>"

text \<open>
  The closure \<open>validate\<close> is an \<open>async\<close> function with one \<open>await\<close>. Up to the \<open>await\<close> it
  marks the field pending and evaluates the rules (\<open>formHandle\<close> stands for the reference to
  the form state that the rules receive as their third argument); when the awaited result
  arrives it runs the rest, on the form state as it is by then.
\<close>

definition validate_start ::
  "'w fenv \<Rightarrow> jsval \<Rightarrow> nat \<Rightarrow> jsval list \<Rightarrow> validateOptions \<Rightarrow> formState \<Rightarrow> 'w
     \<Rightarrow> ((error + internalValidationResult deferred) \<times> 'w) \<times> formState" where
  "validate_start F formHandle a rules opts fs w =
     (let fs1 = fs \<lparr> heap := (heap fs)[a := (heap fs ! a) \<lparr> field_pending := True \<rparr>] \<rparr>
      in (validateInternal F (Some rules)
            [field_value (heap fs1 ! a), VStr (field_name (heap fs1 ! a)), formHandle]
            (Some opts) w,
          fs1))"

definition validate_resume ::
  "nat \<Rightarrow> 32 word \<Rightarrow> internalValidationResult \<Rightarrow> formState \<Rightarrow> formState" where
  "validate_resume a validationLockId validationResult fs =
     (let fs1 = (if formValidationLock fs = Some validationLockId
                 then fs \<lparr> heap := (heap fs)[a := (heap fs ! a)
                          \<lparr> field_valid := valid validationResult,
                            field_errors := errors validationResult \<rparr>] \<rparr>
                 else fs)
      in fs1 \<lparr> heap := (heap fs1)[a := (heap fs1 ! a) \<lparr> field_pending := False \<rparr>] \<rparr>)"

text \<open>
  \<open>validateFormInternal\<close>: nothing happens while validation is suppressed; otherwise the
  form rules are evaluated and the callback \<open>cb\<close> hands their result to \<open>collectErrors\<close>,
  at once in a synchronous pass, when the promise settles in an asynchronous one.
\<close>

datatype formPass =
    Done formValidationResult
  | Awaiting "(internalValidationResult, jsval) settle"

definition validateFormInternal_cb ::
  "internalValidationResult \<Rightarrow> formState \<Rightarrow> formValidationResult \<times> formState" where
  "validateFormInternal_cb validationResults fs = collectErrors fs (Some validationResults)"

definition validateFormInternal ::
  "'w fenv \<Rightarrow> jsval \<Rightarrow> bool \<Rightarrow> formState \<Rightarrow> 'w \<Rightarrow> ((error + formPass) \<times> 'w) \<times> formState" where
  "validateFormInternal F formHandle prom fs w =
     (if formIgnoreValidation fs
      then ((Inr (Done \<lparr> valid = True, errors = [], errorFields = [] \<rparr>), w), fs)
      else
        (let fs1 = fs \<lparr> form_pending := True \<rparr> in
         case validateInternal F (Some (formRules fs1)) [formHandle]
                (Some \<lparr> opt_promise = Some prom, opt_alwaysValidate = None \<rparr>) w of
           (Inl e, w1) \<Rightarrow> ((Inl e, w1), fs1)
         | (Inr (Later p), w1) \<Rightarrow> ((Inr (Awaiting p), w1), fs1)
         | (Inr (Now r), w1) \<Rightarrow>
             (case validateFormInternal_cb r fs1 of
                (res, fs2) \<Rightarrow> ((Inr (Done res), w1), fs2))))"

text \<open>
  What can happen to the form state while validation passes overlap. JavaScript runs one
  piece of code at a time, so the code between two \<open>await\<close>s is one step: a pass starts and
  takes its lock identifier; a field's \<open>validate\<close> starts; a field's awaited result arrives
  and \<open>validate\<close> resumes with the identifier it was given; the awaited result of the form
  rules arrives and \<open>cb\<close> runs. The identifier in \<open>FormSettled\<close> names the pass the result
  belongs to; \<open>validateFormInternal\<close> is not given it. In which order results arrive is up
  to the rules, so every list of events is a possible history.
\<close>

datatype event =
    PassStarted "32 word"
  | FieldStarted nat
  | FieldSettled nat "32 word" internalValidationResult
  | FormSettled "32 word" internalValidationResult

fun step :: "event \<Rightarrow> formState \<Rightarrow> formState" where
  "step (PassStarted newId) fs = createValidateFieldFunction newId fs"
| "step (FieldStarted a) fs =
     fs \<lparr> heap := (heap fs)[a := (heap fs ! a) \<lparr> field_pending := True \<rparr>] \<rparr>"
| "step (FieldSettled a lockId r) fs = validate_resume a lockId r fs"
| "step (FormSettled lockId r) fs = snd (validateFormInternal_cb r fs)"

definition run :: "event list \<Rightarrow> formState \<Rightarrow> formState" where
  "run es fs = fold step es fs"

section \<open>The change-driven pass\<close>

text \<open>
  \<open>validationWatcher\<close> compares each field's value with the snapshot \<open>fieldPrevValue\<close>.
  The snapshot is only ever assigned \<open>cloneDeep(field.value)\<close> (in \<open>createField\<close> and in
  the watcher itself), and \<open>cloneDeep\<close> builds a new object for every array and object.
  \<open>!==\<close> compares objects by identity, so against the snapshot it is true for every value
  that is an array or an object, and is inequality of the values otherwise.
  \<open>deepEqual\<close> (\<open>utils/deepEqual\<close>) is imported by the source but is not among its files; it
  is a parameter.
\<close>

fun typeofObject :: "jsval \<Rightarrow> bool" where
  "typeofObject VNull = True"
| "typeofObject (VArr xs) = True"
| "typeofObject (VObj kvs) = True"
| "typeofObject (VPromise p) = True"
| "typeofObject _ = False"

fun isObjectRef :: "jsval \<Rightarrow> bool" where
  "isObjectRef (VArr xs) = True"
| "isObjectRef (VObj kvs) = True"
| "isObjectRef (VPromise p) = True"
| "isObjectRef _ = False"

definition notIdentical :: "jsval \<Rightarrow> jsval \<Rightarrow> bool" where
  "notIdentical v snapshot = (if isObjectRef v then True else v \<noteq> snapshot)"

definition isUnequal :: "(jsval \<Rightarrow> jsval \<Rightarrow> bool) \<Rightarrow> field \<Rightarrow> bool" where
  "isUnequal deepEqual f =
     (if \<not> isArray (field_value f) \<or> \<not> typeofObject (field_value f)
      then notIdentical (field_value f) (fieldPrevValue f)
      else \<not> deepEqual (cloneDeep (field_value f)) (fieldPrevValue f))"

definition unequalValues :: "(jsval \<Rightarrow> jsval \<Rightarrow> bool) \<Rightarrow> formState \<Rightarrow> nat list" where
  "unequalValues deepEqual fs = filter (\<lambda>a. isUnequal deepEqual (heap fs ! a)) (getAllFields fs)"

text \<open>
  \<open>unequalValues.map(promise)\<close>: for each field in turn the snapshot is renewed and, unless
  validation is suppressed, \<open>validate\<close> is started with
  \<open>{promise: true, alwaysValidate: false}\<close>. The result lists the fields whose validation
  was started, each with what its \<open>validateInternal\<close> returned.
\<close>

fun startAll ::
  "'w fenv \<Rightarrow> jsval \<Rightarrow> nat list \<Rightarrow> formState \<Rightarrow> 'w
     \<Rightarrow> (nat \<times> (error + internalValidationResult deferred)) list \<times> formState \<times> 'w" where
  "startAll F formHandle [] fs w = ([], fs, w)"
| "startAll F formHandle (a # as) fs w =
     (let fs1 = fs \<lparr> heap := (heap fs)[a := (heap fs ! a)
                  \<lparr> fieldPrevValue := cloneDeep (field_value (heap fs ! a)) \<rparr>] \<rparr>
      in if formIgnoreValidation fs1 then startAll F formHandle as fs1 w
         else (case validate_start F formHandle a (fieldRules (heap fs1 ! a))
                      \<lparr> opt_promise = Some True, opt_alwaysValidate = Some False \<rparr> fs1 w of
                 ((r, w1), fs2) \<Rightarrow>
                   (case startAll F formHandle as fs2 w1 of
                      (started, fs3, w3) \<Rightarrow> ((a, r) # started, fs3, w3))))"

text \<open>\<open>validationWatcher\<close> up to its first \<open>await\<close>.\<close>

definition validationWatcher_start ::
  "'w fenv \<Rightarrow> (jsval \<Rightarrow> jsval \<Rightarrow> bool) \<Rightarrow> jsval \<Rightarrow> 32 word \<Rightarrow> formState \<Rightarrow> 'w
     \<Rightarrow> (nat \<times> (error + internalValidationResult deferred)) list \<times> formState \<times> 'w" where
  "validationWatcher_start F deepEqual formHandle newId fs w =
     (let fs1 = createValidateFieldFunction newId fs;
          changed = unequalValues deepEqual fs1;
          fs2 = fs1 \<lparr> form_pending := True \<rparr>
      in startAll F formHandle changed fs2 w)"

section \<open>Form construction\<close>




text \<open>
  \<open>createFields\<close>, as \<open>useForm\<close> reaches it: every entry that \<open>getInitState\<close> produced is an
  object, never an array, so each entry becomes one field object. \<open>createField\<close> normalizes
  the descriptor's rules and sets the status keys.
\<close>

definition freshField :: "string \<Rightarrow> jsval \<Rightarrow> jsval list \<Rightarrow> field" where
  "freshField key v rules =
     \<lparr> field_value = v, field_name = key, fieldRules = rules,
       field_dirty = False, field_touched = False, field_valid = True,
       field_focused = False, field_errors = [], field_pending = False,
       fieldPrevValue = cloneDeep v \<rparr>"



text \<open>The form state as \<open>useForm\<close> leaves it; the three symbol keys start undefined.\<close>

definition newFormState ::
  "(string \<times> entry) list \<Rightarrow> field list \<Rightarrow> (string \<times> jsval) list \<Rightarrow> jsval \<Rightarrow> jsval list
     \<Rightarrow> formState" where
  "newFormState flds objs initState ctx rules =
     \<lparr> form_fields = flds, heap = objs,
       form_valid = True, form_dirty = False, form_touched = False, form_errors = [],
       form_pending = False, initialFields = initState, form_errorFields = [],
       formRules = rules, form_context = ctx,
       formIgnoreDirty = False, formIgnoreValidation = False, formValidationLock = None \<rparr>"


















section \<open>A spy on the callables\<close>

text \<open>
  As \<open>vi.fn\<close> does in the test suite: \<open>traced F\<close> behaves as \<open>F\<close> and appends the arguments
  of every call to a log kept beside the world.
\<close>

definition traced :: "'w fenv \<Rightarrow> ('w \<times> jsval list list) fenv" where
  "traced F i =
     \<lparr> isAsync = isAsync (F i),
       invoke = (\<lambda>args wl. case invoke (F i) args (fst wl) of
                              (r, w') \<Rightarrow> (r, (w', snd wl @ [args]))) \<rparr>"

section \<open>Vocabulary of the statements\<close>

text \<open>
  The entries of \<open>errorFields\<close> as \<open>collectErrors\<close> computes them when every key occurs
  once: one entry per key whose \<open>valid\<close> reads falsy, in key order.
\<close>

definition invalidEntries :: "field list \<Rightarrow> (string \<times> entry) list \<Rightarrow> (string \<times> jsval) list" where
  "invalidEntries h kes =
     map (\<lambda>ke. (fst ke, readErrors h (snd ke)))
       (filter (\<lambda>ke. \<not> truthy (readValid h (snd ke))) kes)"

text \<open>
  The specification's reading of a form whose entries are all single fields: the fields
  in declaration order, their error lists concatenated, and the invalid ones with their
  error lists.
\<close>

fun isSingle :: "entry \<Rightarrow> bool" where
  "isSingle (Single a) = True"
| "isSingle (Group recs) = False"

definition allDeclaredValid :: "field list \<Rightarrow> (string \<times> entry) list \<Rightarrow> bool" where
  "allDeclaredValid h kes = list_all (\<lambda>b. b) [field_valid (h ! a). (k, Single a) \<leftarrow> kes]"

definition declaredErrors :: "field list \<Rightarrow> (string \<times> entry) list \<Rightarrow> jsval list" where
  "declaredErrors h kes = concat [field_errors (h ! a). (k, Single a) \<leftarrow> kes]"

definition invalidFields :: "field list \<Rightarrow> (string \<times> entry) list \<Rightarrow> (string \<times> jsval) list" where
  "invalidFields h kes =
     [(k, VArr (field_errors (h ! a))). (k, Single a) \<leftarrow> kes, \<not> field_valid (h ! a)]"

text \<open>
  Concrete inputs for the examples: a field as \<open>createField\<close> builds it for the value
  \<open>"hello"\<close> without rules, with the \<open>valid\<close> and \<open>errors\<close> a finished validation left; and
  a form over given field objects as \<open>useForm\<close> builds it without options.
\<close>

definition exampleField :: "string \<Rightarrow> bool \<Rightarrow> jsval list \<Rightarrow> field" where
  "exampleField key ok es =
     (freshField key (VStr ''hello'') []) \<lparr> field_valid := ok, field_errors := es \<rparr>"

definition exampleForm :: "(string \<times> entry) list \<Rightarrow> field list \<Rightarrow> formState" where
  "exampleForm flds objs = newFormState flds objs [] (VObj []) []"












section \<open>Properties of result normalization\<close>

lemma filter_map_contributes:
  "filter errorFilter (map mapErrors xs) = concat (map contributes xs)"
  by (induction xs) (auto simp: errorFilter_def mapErrors_def contributes_def)

text \<open>
  C3: result normalization. A list is opened one level: each of its elements contributes
  on its own, and a single value contributes as a one-element list (\<open>flat1\<close>). \<open>true\<close>,
  \<open>undefined\<close> and \<open>null\<close> contribute nothing, \<open>false\<close> contributes the string
  \<open>"not valid"\<close>, every other value (a string, an object, a list nested inside the list)
  contributes itself unchanged, and \<open>valid\<close> holds iff nothing was contributed. The three
  examples of the specification are the last three conjuncts.
\<close>

theorem createInternalValidationResults_spec:
  "errors (createInternalValidationResults raw) = concat (map contributes (flat1 raw))
   \<and> valid (createInternalValidationResults raw)
       = (length (errors (createInternalValidationResults raw)) = 0)
   \<and> contributes (VBool True) = [] \<and> contributes VUndefined = [] \<and> contributes VNull = []
   \<and> contributes (VBool False) = [VStr ''not valid'']
   \<and> contributes (VStr s) = [VStr s] \<and> contributes (VObj kvs) = [VObj kvs]
   \<and> contributes (VArr ys) = [VArr ys] \<and> contributes (VNum n) = [VNum n]
   \<and> createInternalValidationResults (VBool True) = \<lparr> valid = True, errors = [] \<rparr>
   \<and> createInternalValidationResults (VBool False)
       = \<lparr> valid = False, errors = [VStr ''not valid''] \<rparr>
   \<and> createInternalValidationResults (VArr [VStr ''e1'', VUndefined, VStr ''e2''])
       = \<lparr> valid = False, errors = [VStr ''e1'', VStr ''e2''] \<rparr>"
proof -
  have e: "errors (createInternalValidationResults raw) = concat (map contributes (flat1 raw))"
  proof -
    have "(if isArray raw then flat1 raw else [raw]) = flat1 raw"
      by (cases raw) simp_all
    then have "errors (createInternalValidationResults raw)
        = filter errorFilter (map mapErrors (flat1 raw))"
      unfolding createInternalValidationResults_def Let_def
      by (cases "isArray raw") simp_all
    then show ?thesis
      by (simp only: filter_map_contributes)
  qed
  have v: "valid (createInternalValidationResults raw)
       = (length (errors (createInternalValidationResults raw)) = 0)"
    by (simp add: createInternalValidationResults_def Let_def)
  have c: "contributes (VBool True) = [] \<and> contributes VUndefined = [] \<and> contributes VNull = []
   \<and> contributes (VBool False) = [VStr ''not valid'']
   \<and> contributes (VStr s) = [VStr s] \<and> contributes (VObj kvs) = [VObj kvs]
   \<and> contributes (VArr ys) = [VArr ys] \<and> contributes (VNum n) = [VNum n]"
    by (simp add: contributes_def)
  have x: "createInternalValidationResults (VBool True) = \<lparr> valid = True, errors = [] \<rparr>
   \<and> createInternalValidationResults (VBool False)
       = \<lparr> valid = False, errors = [VStr ''not valid''] \<rparr>
   \<and> createInternalValidationResults (VArr [VStr ''e1'', VUndefined, VStr ''e2''])
       = \<lparr> valid = False, errors = [VStr ''e1'', VStr ''e2''] \<rparr>"
    by (simp add: createInternalValidationResults_def Let_def errorFilter_def mapErrors_def)
  from e v c x show ?thesis by blast
qed

section \<open>Properties of the rule normalizer\<close>










section \<open>Properties of the rule evaluator\<close>

text \<open>The three gates: no call is made, the world is as it was.\<close>

lemma processValidationObject_skips:
  "\<not> nullish r \<Longrightarrow>
   \<not> truthy (get_prop r ''rule'') \<or> noAutoValidation r sv \<or> noPromiseValidation F r prom \<Longrightarrow>
   processValidationObject F r args sv prom w = (Inr VUndefined, w)"
  by (auto simp: processValidationObject_def)

lemma processValidationObject_discards_first_promise:
  "\<not> nullish r \<Longrightarrow> truthy (get_prop r ''rule'') \<Longrightarrow> \<not> noAutoValidation r sv \<Longrightarrow>
   \<not> noPromiseValidation F r False \<Longrightarrow>
   call F (get_prop r ''rule'') args w = (Inr (VPromise p), w1) \<Longrightarrow>
   processValidationObject F r args sv False w = (Inr VUndefined, w1)"
  by (auto simp: processValidationObject_def)

text \<open>
  C2: the source examines the result of a first call and returns the result of a second
  one. A rule that answers \<open>"e"\<close> to its first call and a promise to every later call is
  evaluated here with \<open>shouldValidate = true\<close> and \<open>promise = false\<close>: the first result is
  not a promise, so the second call is made, and its result, a promise, is returned although
  asynchronous evaluation is not allowed. The rule has been called twice.
\<close>

theorem processValidationObject_second_call_unchecked:
  "processValidationObject
     (\<lambda>i. \<lparr> isAsync = False,
            invoke = (\<lambda>args n. (Inr (if n = (0::nat) then VStr ''e''
                                       else VPromise (Fulfilled (VStr ''e''))), Suc n)) \<rparr>)
     (VObj [(''rule'', VFun 0)]) [VStr ''a''] True False 0
   = (Inr (VPromise (Fulfilled (VStr ''e''))), 2)"
  by (simp add: processValidationObject_def nullish_def noAutoValidation_def
      noPromiseValidation_def nullish_or_def)

theorem processValidationObject_second_call_unchecked_witness:
  "isPromise (case fst (processValidationObject
     (\<lambda>i. \<lparr> isAsync = False,
            invoke = (\<lambda>args n. (Inr (if n = (0::nat) then VStr ''e''
                                       else VPromise (Fulfilled (VStr ''e''))), Suc n)) \<rparr>)
     (VObj [(''rule'', VFun 0)]) [VStr ''a''] True False 0) of
       Inl e \<Rightarrow> VUndefined | Inr v \<Rightarrow> v)"
  using processValidationObject_second_call_unchecked by simp

lemma invoke_traced:
  "invoke (traced F i) args (w, lg)
     = (fst (invoke (F i) args w), (snd (invoke (F i) args w), lg @ [args]))"
  by (simp add: traced_def split: prod.splits)

lemma isAsyncFunction_traced: "isAsyncFunction (traced F) f = isAsyncFunction F f"
  by (cases f) (simp_all add: traced_def)

lemma call_Inr_VFun: "call F f args w = (Inr v, w1) \<Longrightarrow> \<exists>i. f = VFun i"
  by (cases f) simp_all

text \<open>
  C10: when the gates let a rule run and its first call returns a value that is not a
  discarded promise, the callable is called a second time with the same arguments, from
  the world the first call left, and the outcome of the second call is the outcome of
  \<open>processValidationObject\<close>. Under the spy the log grows by exactly two entries, both the
  call arguments.
\<close>

theorem processValidationObject_invokes_twice:
  assumes gate: "\<not> nullish r" "truthy (get_prop r ''rule'')" "\<not> noAutoValidation r sv"
      "\<not> noPromiseValidation F r prom"
    and first: "call F (get_prop r ''rule'') args w = (Inr v1, w1)"
    and kept: "\<not> (isPromise v1 \<and> \<not> prom)"
  shows "processValidationObject F r args sv prom w = call F (get_prop r ''rule'') args w1
     \<and> processValidationObject (traced F) r args sv prom (w, lg)
         = (fst (call F (get_prop r ''rule'') args w1),
            (snd (call F (get_prop r ''rule'') args w1), lg @ [args, args]))"
proof -
  from call_Inr_VFun [OF first] obtain i where f: "get_prop r ''rule'' = VFun i" ..
  have one: "processValidationObject F r args sv prom w = call F (get_prop r ''rule'') args w1"
    using gate first kept by (auto simp: processValidationObject_def)
  have np: "\<not> noPromiseValidation (traced F) r prom"
    using gate(4) by (simp add: noPromiseValidation_def isAsyncFunction_traced)
  have c1: "call (traced F) (get_prop r ''rule'') args (w, lg) = (Inr v1, (w1, lg @ [args]))"
    using first by (simp add: invoke_traced f)
  have c2: "call (traced F) (get_prop r ''rule'') args (w1, lg @ [args])
      = (fst (call F (get_prop r ''rule'') args w1),
            (snd (call F (get_prop r ''rule'') args w1), lg @ [args, args]))"
    by (simp add: invoke_traced f)
  have two: "processValidationObject (traced F) r args sv prom (w, lg)
      = call (traced F) (get_prop r ''rule'') args (w1, lg @ [args])"
    using gate(1,2,3) np c1 kept by (auto simp: processValidationObject_def)
  from one two c2 show ?thesis by simp
qed

theorem processValidationObject_invokes_twice_witness:
  "processValidationObject
      (\<lambda>i. \<lparr> isAsync = False, invoke = (\<lambda>args n. (Inr (VNum (int n)), Suc n)) \<rparr>)
      (VObj [(''rule'', VFun 0)]) [VStr ''a''] False False 0 = (Inr (VNum 1), 2)
   \<and> processValidationObject
      (traced (\<lambda>i. \<lparr> isAsync = False, invoke = (\<lambda>args n. (Inr (VNum (int n)), Suc n)) \<rparr>))
      (VObj [(''rule'', VFun 0)]) [VStr ''a''] False False (0, [])
       = (Inr (VNum 1), (2, [[VStr ''a''], [VStr ''a'']]))"
  using processValidationObject_invokes_twice
    [of "VObj [(''rule'', VFun 0)]" False
        "\<lambda>i. \<lparr> isAsync = False, invoke = (\<lambda>args n. (Inr (VNum (int n)), Suc n)) \<rparr>"
        False "[VStr ''a'']" 0 "VNum 0" 1 "[]"]
  by (simp add: nullish_def noAutoValidation_def noPromiseValidation_def nullish_or_def)

text \<open>A rejected promise among the awaited values makes \<open>Promise.all\<close> reject.\<close>

lemma rejected_promise_all:
  "VPromise (Rejected e) \<in> set vs \<Longrightarrow> \<exists>e'. promise_all vs = Rejected e'"
  by (induction vs) (auto split: settle.splits)

text \<open>
  C4: with \<open>options.promise\<close> the collected results are awaited by \<open>validationPromise\<close>.
  If the \<open>Promise.all\<close> rejects, in particular if one of the collected values is a rejected
  promise, the pass resolves to \<open>{valid: true, errors: []}\<close>; \<open>validationPromise\<close> never
  rejects; and \<open>validateInternal\<close> with \<open>promise: true\<close> on a rule list one of whose
  results is a rejected promise returns a promise fulfilled with \<open>{valid: true, errors: []}\<close>.
\<close>

theorem validationPromise_fail_open:
  "(promise_all validation = Rejected e \<longrightarrow>
      validationPromise validation = Fulfilled \<lparr> valid = True, errors = [] \<rparr>)
   \<and> (VPromise (Rejected e) \<in> set validation \<longrightarrow>
      validationPromise validation = Fulfilled \<lparr> valid = True, errors = [] \<rparr>)
   \<and> validationPromise validation \<noteq> Rejected e'
   \<and> (mapRules F rules args sv True w = (Inr xs, w') \<and> VPromise (Rejected e) \<in> set (flat xs) \<longrightarrow>
        validateInternal F (Some rules) args
          (Some \<lparr> opt_promise = Some True, opt_alwaysValidate = Some sv \<rparr>) w
        = (Inr (Later (Fulfilled \<lparr> valid = True, errors = [] \<rparr>)), w'))"
proof -
  have a: "promise_all vs = Rejected x \<Longrightarrow>
      validationPromise vs = Fulfilled \<lparr> valid = True, errors = [] \<rparr>" for vs x
    by (simp add: validationPromise_def createInternalValidationResults_def)
  have b: "VPromise (Rejected e) \<in> set vs \<Longrightarrow>
      validationPromise vs = Fulfilled \<lparr> valid = True, errors = [] \<rparr>" for vs
    using rejected_promise_all a by blast
  have c: "validationPromise validation \<noteq> Rejected e'"
    by (simp add: validationPromise_def split: settle.splits)
  have d: "mapRules F rules args sv True w = (Inr xs, w') \<and> VPromise (Rejected e) \<in> set (flat xs) \<longrightarrow>
        validateInternal F (Some rules) args
          (Some \<lparr> opt_promise = Some True, opt_alwaysValidate = Some sv \<rparr>) w
        = (Inr (Later (Fulfilled \<lparr> valid = True, errors = [] \<rparr>)), w')"
    by (simp add: validateInternal_def promiseOf_def alwaysValidateOf_def b)
  from a b c d show ?thesis by blast
qed

theorem validationPromise_fail_open_witness:
  "promise_all [VStr ''some error'', VPromise (Rejected (VStr ''boom''))] = Rejected (VStr ''boom'')
   \<and> validationPromise [VStr ''some error'', VPromise (Rejected (VStr ''boom''))]
       = Fulfilled \<lparr> valid = True, errors = [] \<rparr>
   \<and> mapRules (\<lambda>i. \<lparr> isAsync = (i = 1),
                       invoke = (\<lambda>args (u::unit).
                          (Inr (if i = 1 then VPromise (Rejected (VStr ''boom''))
                                else VStr ''some error''), u)) \<rparr>)
        [VObj [(''rule'', VFun 0)], VObj [(''rule'', VFun 1)]] [] False True ()
       = (Inr [VStr ''some error'', VPromise (Rejected (VStr ''boom''))], ())
   \<and> validateInternal (\<lambda>i. \<lparr> isAsync = (i = 1),
                       invoke = (\<lambda>args (u::unit).
                          (Inr (if i = 1 then VPromise (Rejected (VStr ''boom''))
                                else VStr ''some error''), u)) \<rparr>)
        (Some [VObj [(''rule'', VFun 0)], VObj [(''rule'', VFun 1)]]) []
        (Some \<lparr> opt_promise = Some True, opt_alwaysValidate = Some False \<rparr>) ()
       = (Inr (Later (Fulfilled \<lparr> valid = True, errors = [] \<rparr>)), ())"
proof -
  let ?F = "\<lambda>i::nat. \<lparr> isAsync = (i = 1),
                       invoke = (\<lambda>args (u::unit).
                          (Inr (if i = 1 then VPromise (Rejected (VStr ''boom''))
                                else VStr ''some error''), u)) \<rparr>"
  let ?v = "[VStr ''some error'', VPromise (Rejected (VStr ''boom''))]"
  have p: "promise_all ?v = Rejected (VStr ''boom'')" by simp
  have m: "mapRules ?F [VObj [(''rule'', VFun 0)], VObj [(''rule'', VFun 1)]] [] False True ()
       = (Inr ?v, ())"
    by (simp add: processValidationObject_def nullish_def noAutoValidation_def
        noPromiseValidation_def nullish_or_def)
  have f: "VPromise (Rejected (VStr ''boom'')) \<in> set (flat ?v)" by (simp add: flat_def)
  from validationPromise_fail_open
    [of ?v "VStr ''boom''" undefined ?F "[VObj [(''rule'', VFun 0)], VObj [(''rule'', VFun 1)]]"
        "[]" False "()" ?v "()"] p m f
  show ?thesis by simp
qed

section \<open>Properties of the form aggregator\<close>

lemma objSet_fresh: "key \<notin> set (map fst acc) \<Longrightarrow> objSet acc key v = acc @ [(key, v)]"
  by (induction acc) auto

lemma foldl_errorFieldsStep:
  "distinct (map fst acc @ map fst kes) \<Longrightarrow>
   foldl (errorFieldsStep h) acc kes = acc @ invalidEntries h kes"
proof (induction kes arbitrary: acc)
  case Nil
  then show ?case by (simp add: invalidEntries_def)
next
  case (Cons ke kes)
  show ?case
  proof (cases "truthy (readValid h (snd ke))")
    case True
    with Cons show ?thesis
      by (simp add: errorFieldsStep_def invalidEntries_def)
  next
    case False
    from Cons.prems have fresh: "fst ke \<notin> set (map fst acc)" by auto
    from Cons.prems have d: "distinct (map fst (acc @ [(fst ke, readErrors h (snd ke))]) @ map fst kes)"
      by auto
    from False fresh Cons.IH [OF d] show ?thesis
      by (simp add: errorFieldsStep_def invalidEntries_def objSet_fresh)
  qed
qed

lemma errorFields_collectErrors:
  "distinct (map fst (form_fields fs)) \<Longrightarrow>
   errorFields (fst (collectErrors fs vr)) = invalidEntries (heap fs) (form_fields fs)"
  using foldl_errorFieldsStep [of "[]" "form_fields fs" "heap fs"]
  by (simp add: collectErrors_def Let_def)

lemma map_of_invalidEntries:
  "distinct (map fst kes) \<Longrightarrow> (k, e) \<in> set kes \<Longrightarrow>
   map_of (invalidEntries h kes) k
     = (if truthy (readValid h e) then None else Some (readErrors h e))"
proof (induction kes)
  case Nil
  then show ?case by simp
next
  case (Cons ke kes)
  show ?case
  proof (cases "(k, e) = ke")
    case True
    have "k \<notin> fst ` set (invalidEntries h kes)"
      using Cons.prems(1) True by (force simp: invalidEntries_def)
    then have "map_of (invalidEntries h kes) k = None"
      by (simp add: map_of_eq_None_iff)
    with True show ?thesis by (auto simp: invalidEntries_def)
  next
    case False
    with Cons.prems have in_rest: "(k, e) \<in> set kes" by auto
    with Cons.prems(1) have "fst ke \<noteq> k" by (auto simp: image_iff) 
    with Cons.IH in_rest Cons.prems(1) show ?thesis
      by (auto simp: invalidEntries_def)
  qed
qed

lemma plain_only:
  "list_all (isSingle \<circ> snd) kes \<Longrightarrow>
   concat (map (\<lambda>a. field_errors (h ! a)) (concat (map (plainOf \<circ> snd) kes))) = declaredErrors h kes
   \<and> concat (map (groupOf \<circ> snd) kes) = []
   \<and> invalidEntries h kes = invalidFields h kes
   \<and> list_all (\<lambda>a. field_valid (h ! a)) (concat (map (plainOf \<circ> snd) kes)) = allDeclaredValid h kes"
proof (induction kes)
  case Nil
  then show ?case by (simp add: declaredErrors_def invalidEntries_def invalidFields_def allDeclaredValid_def)
next
  case (Cons ke kes)
  obtain k e where ke: "ke = (k, e)" by (cases ke)
  with Cons.prems obtain a where e: "e = Single a" by (cases e) auto
  from Cons ke e show ?case
    by (simp add: declaredErrors_def invalidEntries_def invalidFields_def allDeclaredValid_def)
qed

text \<open>
  C5, as the code has it. \<open>valid\<close> holds iff every field, single or nested in an array of
  records, is valid and the form-level result is valid (a missing one counts as valid).
  \<open>errors\<close> is the error lists of the single fields in declaration order, then those of
  the nested fields, then the form-level errors. For a single field under key \<open>k\<close>,
  \<open>errorFields\<close> holds \<open>k\<close> iff the field is invalid, and maps it to the field's error list.
  When the form has no array of records this is the claim as it is stated: \<open>valid\<close> iff all
  declared fields and the form-level result are valid, \<open>errors\<close> the declared fields'
  errors in declaration order followed by the form-level errors, \<open>errorFields\<close> exactly the
  invalid fields with their error lists.
\<close>

theorem collectErrors_result:
  "valid (fst (collectErrors fs vr))
     = (list_all (\<lambda>a. field_valid (heap fs ! a)) (plainFields fs @ nestedFields fs)
        \<and> (case vr of None \<Rightarrow> True | Some r \<Rightarrow> valid r))
   \<and> errors (fst (collectErrors fs vr))
     = concat (map (\<lambda>a. field_errors (heap fs ! a)) (plainFields fs))
       @ concat (map (\<lambda>a. field_errors (heap fs ! a)) (nestedFields fs))
       @ (case vr of None \<Rightarrow> [] | Some r \<Rightarrow> errors r)
   \<and> (distinct (map fst (form_fields fs)) \<and> (k, Single a) \<in> set (form_fields fs) \<longrightarrow>
        map_of (errorFields (fst (collectErrors fs vr))) k
          = (if field_valid (heap fs ! a) then None
             else Some (VArr (field_errors (heap fs ! a)))))
   \<and> (distinct (map fst (form_fields fs)) \<and> list_all (isSingle \<circ> snd) (form_fields fs) \<longrightarrow>
        valid (fst (collectErrors fs vr))
          = (allDeclaredValid (heap fs) (form_fields fs)
             \<and> (case vr of None \<Rightarrow> True | Some r \<Rightarrow> valid r))
        \<and> errors (fst (collectErrors fs vr))
          = declaredErrors (heap fs) (form_fields fs)
            @ (case vr of None \<Rightarrow> [] | Some r \<Rightarrow> errors r)
        \<and> errorFields (fst (collectErrors fs vr)) = invalidFields (heap fs) (form_fields fs))"
proof -
  let ?res = "fst (collectErrors fs vr)"
  have v: "valid ?res
     = (list_all (\<lambda>a. field_valid (heap fs ! a)) (plainFields fs @ nestedFields fs)
        \<and> (case vr of None \<Rightarrow> True | Some r \<Rightarrow> valid r))"
    by (simp add: collectErrors_def Let_def getAllFields_def)
  have e: "errors ?res
     = concat (map (\<lambda>a. field_errors (heap fs ! a)) (plainFields fs))
       @ concat (map (\<lambda>a. field_errors (heap fs ! a)) (nestedFields fs))
       @ (case vr of None \<Rightarrow> [] | Some r \<Rightarrow> errors r)"
    by (simp add: collectErrors_def Let_def getAllFields_def)
  have m: "map_of (errorFields ?res) k
          = (if field_valid (heap fs ! a) then None
             else Some (VArr (field_errors (heap fs ! a))))"
    if "distinct (map fst (form_fields fs))" "(k, Single a) \<in> set (form_fields fs)"
    using that map_of_invalidEntries [of "form_fields fs" k "Single a" "heap fs"]
    by (simp add: errorFields_collectErrors)
  have p: "valid ?res
          = (allDeclaredValid (heap fs) (form_fields fs)
             \<and> (case vr of None \<Rightarrow> True | Some r \<Rightarrow> valid r))
        \<and> errors ?res
          = declaredErrors (heap fs) (form_fields fs)
            @ (case vr of None \<Rightarrow> [] | Some r \<Rightarrow> errors r)
        \<and> errorFields ?res = invalidFields (heap fs) (form_fields fs)"
    if d: "distinct (map fst (form_fields fs))" and s: "list_all (isSingle \<circ> snd) (form_fields fs)"
  proof -
    note po = plain_only [OF s, of "heap fs"]
    from po have n: "nestedFields fs = []" by (simp add: nestedFields_def)
    from po have pe: "concat (map (\<lambda>a. field_errors (heap fs ! a)) (plainFields fs))
        = declaredErrors (heap fs) (form_fields fs)"
      by (simp add: plainFields_def)
    from po have pv: "list_all (\<lambda>a. field_valid (heap fs ! a)) (plainFields fs)
        = allDeclaredValid (heap fs) (form_fields fs)"
      by (simp add: plainFields_def)
    from po have ef: "errorFields ?res = invalidFields (heap fs) (form_fields fs)"
      by (simp add: errorFields_collectErrors [OF d])
    from v e n pe pv ef show ?thesis by simp
  qed
  from v e m p show ?thesis by blast
qed

text \<open>
  The example of the specification: two invalid fields with errors \<open>["e1","e2"]\<close> and
  \<open>["e3"]\<close> and a valid form-level result.
\<close>

theorem collectErrors_result_witness:
  "distinct (map fst (form_fields (exampleForm [(''field1'', Single 0), (''field2'', Single 1)]
        [exampleField ''field1'' False [VStr ''e1'', VStr ''e2''],
         exampleField ''field2'' False [VStr ''e3'']])))
   \<and> (''field1'', Single 0) \<in> set (form_fields
        (exampleForm [(''field1'', Single 0), (''field2'', Single 1)]
        [exampleField ''field1'' False [VStr ''e1'', VStr ''e2''],
         exampleField ''field2'' False [VStr ''e3'']]))
   \<and> list_all (isSingle \<circ> snd) (form_fields
        (exampleForm [(''field1'', Single 0), (''field2'', Single 1)]
        [exampleField ''field1'' False [VStr ''e1'', VStr ''e2''],
         exampleField ''field2'' False [VStr ''e3'']]))
   \<and> valid (fst (collectErrors
        (exampleForm [(''field1'', Single 0), (''field2'', Single 1)]
        [exampleField ''field1'' False [VStr ''e1'', VStr ''e2''],
         exampleField ''field2'' False [VStr ''e3'']])
        (Some \<lparr> valid = True, errors = [] \<rparr>))) = False
   \<and> errors (fst (collectErrors
        (exampleForm [(''field1'', Single 0), (''field2'', Single 1)]
        [exampleField ''field1'' False [VStr ''e1'', VStr ''e2''],
         exampleField ''field2'' False [VStr ''e3'']])
        (Some \<lparr> valid = True, errors = [] \<rparr>))) = [VStr ''e1'', VStr ''e2'', VStr ''e3'']
   \<and> errorFields (fst (collectErrors
        (exampleForm [(''field1'', Single 0), (''field2'', Single 1)]
        [exampleField ''field1'' False [VStr ''e1'', VStr ''e2''],
         exampleField ''field2'' False [VStr ''e3'']])
        (Some \<lparr> valid = True, errors = [] \<rparr>)))
       = [(''field1'', VArr [VStr ''e1'', VStr ''e2'']), (''field2'', VArr [VStr ''e3''])]"
proof -
  let ?fs = "exampleForm [(''field1'', Single 0), (''field2'', Single 1)]
        [exampleField ''field1'' False [VStr ''e1'', VStr ''e2''],
         exampleField ''field2'' False [VStr ''e3'']]"
  let ?vr = "Some \<lparr> valid = True, errors = [] \<rparr>"
  have h: "distinct (map fst (form_fields ?fs)) \<and> (''field1'', Single 0) \<in> set (form_fields ?fs)
      \<and> list_all (isSingle \<circ> snd) (form_fields ?fs)"
    by (simp add: exampleForm_def newFormState_def)
  from collectErrors_result [of ?fs ?vr "''field1''" 0] h
  have "valid (fst (collectErrors ?fs ?vr))
          = (allDeclaredValid (heap ?fs) (form_fields ?fs)
             \<and> (case ?vr of None \<Rightarrow> True | Some r \<Rightarrow> valid r))
        \<and> errors (fst (collectErrors ?fs ?vr))
          = declaredErrors (heap ?fs) (form_fields ?fs)
            @ (case ?vr of None \<Rightarrow> [] | Some r \<Rightarrow> errors r)
        \<and> errorFields (fst (collectErrors ?fs ?vr)) = invalidFields (heap ?fs) (form_fields ?fs)"
    by blast
  then have r: "valid (fst (collectErrors ?fs ?vr)) = False
      \<and> errors (fst (collectErrors ?fs ?vr)) = [VStr ''e1'', VStr ''e2'', VStr ''e3'']
      \<and> errorFields (fst (collectErrors ?fs ?vr))
          = [(''field1'', VArr [VStr ''e1'', VStr ''e2'']), (''field2'', VArr [VStr ''e3''])]"
    by (simp add: exampleForm_def exampleField_def newFormState_def freshField_def
      allDeclaredValid_def declaredErrors_def invalidFields_def)
  from h r show ?thesis by blast
qed

text \<open>
  The claim as stated fails on a form with an array of records. Declared first is
  \<open>items\<close>, an array with one record holding the invalid field \<open>a\<close> (error \<open>"e1"\<close>);
  declared second is the invalid field \<open>b\<close> (error \<open>"e2"\<close>). The errors come out as
  \<open>["e2","e1"]\<close>, not in declaration order, and \<open>errorFields\<close> maps \<open>items\<close> to
  \<open>undefined\<close> and does not hold the invalid field \<open>a\<close>.
\<close>

theorem collectErrors_array_counterexample:
  "errors (fst (collectErrors
        (exampleForm [(''items'', Group [[(''a'', 0)]]), (''b'', Single 1)]
           [exampleField ''a'' False [VStr ''e1''], exampleField ''b'' False [VStr ''e2'']])
        None)) = [VStr ''e2'', VStr ''e1'']
   \<and> errorFields (fst (collectErrors
        (exampleForm [(''items'', Group [[(''a'', 0)]]), (''b'', Single 1)]
           [exampleField ''a'' False [VStr ''e1''], exampleField ''b'' False [VStr ''e2'']])
        None)) = [(''items'', VUndefined), (''b'', VArr [VStr ''e2''])]"
  by (simp add: collectErrors_def Let_def getAllFields_def plainFields_def nestedFields_def
      errorFieldsStep_def exampleForm_def exampleField_def newFormState_def freshField_def)

text \<open>
  C6, as the code has it: \<open>collectErrors\<close> assigns the recomputed \<open>errors\<close> and
  \<open>errorFields\<close> to the form state and changes nothing else (fields, field objects, flags,
  rules and lock stay); calling it again with the same form-level result returns the same
  view and state.
\<close>

theorem collectErrors_frame:
  "snd (collectErrors fs vr)
     = fs \<lparr> form_errors := errors (fst (collectErrors fs vr)),
            form_errorFields := errorFields (fst (collectErrors fs vr)) \<rparr>
   \<and> form_fields (snd (collectErrors fs vr)) = form_fields fs
   \<and> heap (snd (collectErrors fs vr)) = heap fs
   \<and> form_valid (snd (collectErrors fs vr)) = form_valid fs
   \<and> form_dirty (snd (collectErrors fs vr)) = form_dirty fs
   \<and> form_touched (snd (collectErrors fs vr)) = form_touched fs
   \<and> form_pending (snd (collectErrors fs vr)) = form_pending fs
   \<and> formRules (snd (collectErrors fs vr)) = formRules fs
   \<and> formValidationLock (snd (collectErrors fs vr)) = formValidationLock fs
   \<and> collectErrors (snd (collectErrors fs vr)) vr = collectErrors fs vr"
  by (simp add: collectErrors_def Let_def getAllFields_def plainFields_def nestedFields_def)

theorem collectErrors_frame_witness:
  "snd (collectErrors (exampleForm [(''a'', Single 0)] [exampleField ''a'' False [VStr ''e1'']])
          None)
     = (exampleForm [(''a'', Single 0)] [exampleField ''a'' False [VStr ''e1'']])
         \<lparr> form_errors := [VStr ''e1''],
           form_errorFields := [(''a'', VArr [VStr ''e1''])] \<rparr>"
  using collectErrors_frame
    [of "exampleForm [(''a'', Single 0)] [exampleField ''a'' False [VStr ''e1'']]" None]
  by (simp add: collectErrors_def Let_def getAllFields_def plainFields_def nestedFields_def
      errorFieldsStep_def exampleForm_def exampleField_def newFormState_def freshField_def)

text \<open>
  The claim as stated fails: before the call the form's \<open>errors\<close> and \<open>errorFields\<close> are
  empty, after it they hold the invalid field's error.
\<close>

theorem collectErrors_writes_counterexample:
  "form_errors (exampleForm [(''a'', Single 0)] [exampleField ''a'' False [VStr ''e1'']]) = []
   \<and> form_errorFields
        (exampleForm [(''a'', Single 0)] [exampleField ''a'' False [VStr ''e1'']]) = []
   \<and> form_errors (snd (collectErrors
        (exampleForm [(''a'', Single 0)] [exampleField ''a'' False [VStr ''e1'']]) None))
       = [VStr ''e1'']
   \<and> form_errorFields (snd (collectErrors
        (exampleForm [(''a'', Single 0)] [exampleField ''a'' False [VStr ''e1'']]) None))
       = [(''a'', VArr [VStr ''e1''])]
   \<and> snd (collectErrors
        (exampleForm [(''a'', Single 0)] [exampleField ''a'' False [VStr ''e1'']]) None)
       \<noteq> exampleForm [(''a'', Single 0)] [exampleField ''a'' False [VStr ''e1'']]"
proof -
  let ?fs = "exampleForm [(''a'', Single 0)] [exampleField ''a'' False [VStr ''e1'']]"
  have a: "form_errors ?fs = [] \<and> form_errorFields ?fs = []"
    by (simp add: exampleForm_def newFormState_def)
  have b: "form_errors (snd (collectErrors ?fs None)) = [VStr ''e1'']
      \<and> form_errorFields (snd (collectErrors ?fs None)) = [(''a'', VArr [VStr ''e1''])]"
    by (simp add: collectErrors_def Let_def getAllFields_def plainFields_def nestedFields_def
      errorFieldsStep_def exampleForm_def exampleField_def newFormState_def freshField_def)
  from a b have "form_errors (snd (collectErrors ?fs None)) \<noteq> form_errors ?fs" by simp
  then have c: "snd (collectErrors ?fs None) \<noteq> ?fs" by auto
  from a b c show ?thesis by blast
qed

section \<open>Properties of the validation coordinator\<close>

lemma map_update_same:
  "(\<And>x. f (g x) = f x) \<Longrightarrow> map f (xs[a := g (xs ! a)]) = map f xs"
proof (cases "a < length xs")
  case True
  assume "\<And>x. f (g x) = f x"
  with True show ?thesis by (simp add: map_update list_update_same_conv)
next
  case False
  then have "xs[a := g (xs ! a)] = xs" by (simp add: list_update_beyond)
  then show ?thesis by simp
qed

lemma lock_kept:
  "formValidationLock fs \<noteq> Some t \<Longrightarrow> PassStarted t \<notin> set es \<Longrightarrow>
   formValidationLock (run es fs) \<noteq> Some t"
proof (induction es arbitrary: fs)
  case Nil
  then show ?case by (simp add: run_def)
next
  case (Cons e es)
  have "formValidationLock (step e fs) \<noteq> Some t"
    using Cons.prems
    by (cases e) (auto simp: createValidateFieldFunction_def validate_resume_def Let_def
        validateFormInternal_cb_def collectErrors_def)
  with Cons.IH [of "step e fs"] Cons.prems(2) show ?case
    by (simp add: run_def)
qed

lemma validate_resume_stale:
  "formValidationLock fs \<noteq> Some t \<Longrightarrow>
   map field_valid (heap (validate_resume a t r fs)) = map field_valid (heap fs)
   \<and> map field_errors (heap (validate_resume a t r fs)) = map field_errors (heap fs)"
  by (simp add: validate_resume_def Let_def map_update_same)

text \<open>
  The field path is guarded. Starting a pass stores the identifier it drew as the form's
  validation lock. When a field's result arrives, it is written into the field's \<open>valid\<close>
  and \<open>errors\<close> if the lock still equals the identifier the pass was given, and otherwise
  no field's \<open>valid\<close> or \<open>errors\<close> changes; the field's \<open>pending\<close> is false afterwards in
  both cases. Hence, in every history: once a pass with another identifier \<open>t'\<close> has
  started and no pass with identifier \<open>t\<close> has started since, a field result carried by
  \<open>t\<close> changes no field's \<open>valid\<close> or \<open>errors\<close>. (\<open>a < length (heap fs)\<close>: \<open>a\<close> is the
  address of a field object.)
\<close>

lemma validate_guarded:
  "formValidationLock (step (PassStarted t) fs) = Some t
   \<and> (formValidationLock fs = Some t \<and> a < length (heap fs) \<longrightarrow>
        field_valid (heap (step (FieldSettled a t r) fs) ! a) = valid r
        \<and> field_errors (heap (step (FieldSettled a t r) fs) ! a) = errors r)
   \<and> (formValidationLock fs \<noteq> Some t \<longrightarrow>
        map field_valid (heap (step (FieldSettled a t r) fs)) = map field_valid (heap fs)
        \<and> map field_errors (heap (step (FieldSettled a t r) fs)) = map field_errors (heap fs))
   \<and> (a < length (heap fs) \<longrightarrow>
        field_pending (heap (step (FieldSettled a t r) fs) ! a) = False)
   \<and> (t \<noteq> t' \<and> PassStarted t \<notin> set es \<longrightarrow>
        map field_valid (heap (step (FieldSettled a t r) (run (PassStarted t' # es) fs)))
          = map field_valid (heap (run (PassStarted t' # es) fs))
        \<and> map field_errors (heap (step (FieldSettled a t r) (run (PassStarted t' # es) fs)))
          = map field_errors (heap (run (PassStarted t' # es) fs)))"
proof -
  have p1: "formValidationLock (step (PassStarted t) fs) = Some t"
    by (simp add: createValidateFieldFunction_def)
  have p2: "field_valid (heap (step (FieldSettled a t r) fs) ! a) = valid r
        \<and> field_errors (heap (step (FieldSettled a t r) fs) ! a) = errors r"
    if "formValidationLock fs = Some t" "a < length (heap fs)"
    using that by (simp add: validate_resume_def Let_def)
  have p3: "map field_valid (heap (step (FieldSettled a t r) s)) = map field_valid (heap s)
        \<and> map field_errors (heap (step (FieldSettled a t r) s)) = map field_errors (heap s)"
    if "formValidationLock s \<noteq> Some t" for s
    using that validate_resume_stale by simp
  have p4: "field_pending (heap (step (FieldSettled a t r) fs) ! a) = False"
    if "a < length (heap fs)"
    using that by (simp add: validate_resume_def Let_def)
  have p5: "formValidationLock (run (PassStarted t' # es) fs) \<noteq> Some t"
    if "t \<noteq> t'" "PassStarted t \<notin> set es"
  proof -
    have "run (PassStarted t' # es) fs = run es (step (PassStarted t') fs)"
      by (simp add: run_def)
    moreover have "formValidationLock (step (PassStarted t') fs) \<noteq> Some t"
      using that(1) by (simp add: createValidateFieldFunction_def)
    ultimately show ?thesis using lock_kept that(2) by simp
  qed
  from p1 p2 p3 [of fs] p3 [of "run (PassStarted t' # es) fs"] p4 p5 show ?thesis
    by blast
qed

text \<open>
  The staleness example of the specification: pass 1 and then pass 2 start on field \<open>a\<close>;
  the result of pass 2, \<open>"E2"\<close>, arrives first; when the result of pass 1 arrives the
  field's errors stay \<open>["E2"]\<close>. A result that carries the current identifier is written.
\<close>

lemma validate_guarded_example:
  "(1::32 word) \<noteq> 2
   \<and> PassStarted 1 \<notin> set [FieldStarted 0,
         FieldSettled 0 2 \<lparr> valid = False, errors = [VStr ''E2''] \<rparr>]
   \<and> map field_errors (heap (step (FieldSettled 0 1 \<lparr> valid = True, errors = [] \<rparr>)
        (run (PassStarted 2 # [FieldStarted 0,
                FieldSettled 0 2 \<lparr> valid = False, errors = [VStr ''E2''] \<rparr>])
           (run [PassStarted 1, FieldStarted 0]
              (exampleForm [(''a'', Single 0)] [exampleField ''a'' True []])))))
       = [[VStr ''E2'']]
   \<and> formValidationLock (run [PassStarted 1, FieldStarted 0]
        (exampleForm [(''a'', Single 0)] [exampleField ''a'' True []])) = Some 1
   \<and> 0 < length (heap (run [PassStarted 1, FieldStarted 0]
        (exampleForm [(''a'', Single 0)] [exampleField ''a'' True []])))
   \<and> field_errors (heap (step (FieldSettled 0 1 \<lparr> valid = False, errors = [VStr ''E1''] \<rparr>)
        (run [PassStarted 1, FieldStarted 0]
           (exampleForm [(''a'', Single 0)] [exampleField ''a'' True []]))) ! 0)
       = [VStr ''E1'']
   \<and> field_pending (heap (step (FieldSettled 0 1 \<lparr> valid = False, errors = [VStr ''E1''] \<rparr>)
        (run [PassStarted 1, FieldStarted 0]
           (exampleForm [(''a'', Single 0)] [exampleField ''a'' True []]))) ! 0)
       = False"
proof -
  let ?fs = "run [PassStarted 1, FieldStarted 0]
        (exampleForm [(''a'', Single 0)] [exampleField ''a'' True []])"
  let ?es = "[FieldStarted 0, FieldSettled 0 2 \<lparr> valid = False, errors = [VStr ''E2''] \<rparr>]"
  let ?r1 = "\<lparr> valid = True, errors = [] \<rparr>"
  let ?r2 = "\<lparr> valid = False, errors = [VStr ''E1''] \<rparr>"
  note defs = run_def createValidateFieldFunction_def validate_resume_def Let_def
      exampleForm_def exampleField_def newFormState_def freshField_def
  have h: "(1::32 word) \<noteq> 2 \<and> PassStarted 1 \<notin> set ?es" by simp
  have g: "formValidationLock ?fs = Some 1 \<and> 0 < length (heap ?fs)"
    by (simp add: defs)
  from validate_guarded [of 1 ?fs 0 ?r1 2 ?es] h
  have "map field_errors (heap (step (FieldSettled 0 1 ?r1) (run (PassStarted 2 # ?es) ?fs)))
      = map field_errors (heap (run (PassStarted 2 # ?es) ?fs))"
    by blast
  also have "\<dots> = [[VStr ''E2'']]"
    by (simp add: defs)
  finally have stale: "map field_errors
      (heap (step (FieldSettled 0 1 ?r1) (run (PassStarted 2 # ?es) ?fs))) = [[VStr ''E2'']]" .
  from validate_guarded [of 1 ?fs 0 ?r2 2 ?es] g
  have cur: "field_errors (heap (step (FieldSettled 0 1 ?r2) ?fs) ! 0) = [VStr ''E1'']
      \<and> field_pending (heap (step (FieldSettled 0 1 ?r2) ?fs) ! 0) = False"
    by simp
  from h stale g cur show ?thesis by blast
qed

text \<open>
  The guard compares identifiers, so it tells two passes apart when their identifiers
  differ. \<open>generateRandomId\<close> draws each identifier at random from the 32-bit values and
  keeps no record of those in use: when two overlapping passes have drawn the same
  identifier, the result of the older one is written over that of the newer one.
\<close>

lemma validate_same_identifier:
  "map field_errors (heap (run [PassStarted 1, FieldStarted 0, PassStarted 1, FieldStarted 0,
        FieldSettled 0 1 \<lparr> valid = False, errors = [VStr ''E2''] \<rparr>]
      (exampleForm [(''a'', Single 0)] [exampleField ''a'' True []]))) = [[VStr ''E2'']]
   \<and> map field_errors (heap (run [PassStarted 1, FieldStarted 0, PassStarted 1, FieldStarted 0,
        FieldSettled 0 1 \<lparr> valid = False, errors = [VStr ''E2''] \<rparr>,
        FieldSettled 0 1 \<lparr> valid = True, errors = [] \<rparr>]
      (exampleForm [(''a'', Single 0)] [exampleField ''a'' True []]))) = [[]]"
  by (simp add: run_def createValidateFieldFunction_def validate_resume_def Let_def
      exampleForm_def exampleField_def newFormState_def freshField_def)

text \<open>
  C1 fails for the form-level result. The callback \<open>cb\<close> of \<open>validateFormInternal\<close> hands
  the result of the form rules to \<open>collectErrors\<close>, which writes the form's errors; it is
  given no identifier and does not look at the validation lock, whereas \<open>validate\<close>, the
  field path, compares the lock with its identifier before it writes. Pass 1 and then
  pass 2 start; the form rules of pass 2 settle first, with no error, and the form's
  errors are empty; then the form rules of pass 1 settle with the error \<open>"stale"\<close>. The
  lock is that of pass 2, yet the result of the older pass 1 overwrites the form's errors.
\<close>

theorem validateFormInternal_writes_superseded_result:
  "formValidationLock (run [PassStarted 1, PassStarted 2,
        FormSettled 2 \<lparr> valid = True, errors = [] \<rparr>]
      (exampleForm [(''a'', Single 0)] [exampleField ''a'' True []])) = Some 2
   \<and> form_errors (run [PassStarted 1, PassStarted 2,
        FormSettled 2 \<lparr> valid = True, errors = [] \<rparr>]
      (exampleForm [(''a'', Single 0)] [exampleField ''a'' True []])) = []
   \<and> form_errors (run [PassStarted 1, PassStarted 2,
        FormSettled 2 \<lparr> valid = True, errors = [] \<rparr>,
        FormSettled 1 \<lparr> valid = False, errors = [VStr ''stale''] \<rparr>]
      (exampleForm [(''a'', Single 0)] [exampleField ''a'' True []])) = [VStr ''stale'']"
  by (simp add: run_def createValidateFieldFunction_def validateFormInternal_cb_def
      collectErrors_def Let_def getAllFields_def plainFields_def nestedFields_def
      errorFieldsStep_def exampleForm_def exampleField_def newFormState_def freshField_def)

section \<open>Properties of the change-driven pass\<close>

text \<open>
  How the watcher decides that a field changed: an object that is not an array always
  counts as changed; an array counts as changed iff \<open>deepEqual\<close> tells its clone from the
  snapshot; any other value iff it differs from the snapshot.
\<close>

lemma isUnequal_object: "isUnequal deepEqual (f \<lparr> field_value := VObj kvs \<rparr>)"
  by (simp add: isUnequal_def notIdentical_def)

lemma isUnequal_array:
  "isUnequal deepEqual (f \<lparr> field_value := VArr xs \<rparr>)
     = (\<not> deepEqual (VArr (map cloneDeep xs)) (fieldPrevValue f))"
  by (simp add: isUnequal_def)

lemma isUnequal_primitive:
  "\<not> typeofObject (field_value f) \<Longrightarrow>
   isUnequal deepEqual f = (field_value f \<noteq> fieldPrevValue f)"
  by (cases "field_value f") (simp_all add: isUnequal_def notIdentical_def)

text \<open>
  C8: a form with two fields. Field \<open>a\<close> holds the object \<open>{x: 1}\<close> and its snapshot is
  the clone \<open>createField\<close> took, equal to the value; field \<open>b\<close> was \<open>"old"\<close> when its
  snapshot was taken and is \<open>"new"\<close> now. The condition
  \<open>!Array.isArray(field.value) || typeof field.value !== "object"\<close> is true of every value
  that is not an array, so the object is compared with \<open>!==\<close>, which is true of an object
  and its clone: whatever \<open>deepEqual\<close> is, the watcher counts \<open>a\<close> as changed and starts
  the validation of both fields, \<open>a\<close> (address 0) as well as \<open>b\<close> (address 1).
\<close>

theorem validationWatcher_revalidates_unchanged_object:
  "fieldPrevValue (freshField ''a'' (VObj [(''x'', VNum 1)]) [])
     = field_value (freshField ''a'' (VObj [(''x'', VNum 1)]) [])
   \<and> isUnequal deepEqual (freshField ''a'' (VObj [(''x'', VNum 1)]) [])
   \<and> map fst (fst (validationWatcher_start F deepEqual formHandle newId
        (exampleForm [(''a'', Single 0), (''b'', Single 1)]
           [freshField ''a'' (VObj [(''x'', VNum 1)]) [],
            (freshField ''b'' (VStr ''old'') []) \<lparr> field_value := VStr ''new'' \<rparr>]) w))
       = [0, 1]"
  by (simp add: freshField_def isUnequal_def notIdentical_def validationWatcher_start_def
      unequalValues_def getAllFields_def plainFields_def nestedFields_def exampleForm_def
      newFormState_def createValidateFieldFunction_def Let_def validate_start_def
      split: prod.splits)

theorem validationWatcher_revalidates_unchanged_object_witness:
  "map fst (fst (validationWatcher_start
        (\<lambda>i. \<lparr> isAsync = False, invoke = (\<lambda>args (u::unit). (Inr VUndefined, u)) \<rparr>)
        (\<lambda>x y. x = y) VUndefined 1
        (exampleForm [(''a'', Single 0), (''b'', Single 1)]
           [freshField ''a'' (VObj [(''x'', VNum 1)]) [],
            (freshField ''b'' (VStr ''old'') []) \<lparr> field_value := VStr ''new'' \<rparr>]) ()))
       = [0, 1]"
  using validationWatcher_revalidates_unchanged_object
    [of "\<lambda>x y. x = y"
        "\<lambda>i. \<lparr> isAsync = False, invoke = (\<lambda>args (u::unit). (Inr VUndefined, u)) \<rparr>"
        VUndefined 1 "()"]
  by blast

text \<open>
  A field whose value is a string equal to its snapshot is left alone: only \<open>b\<close> is
  validated.
\<close>

lemma validationWatcher_skips_unchanged_string:
  "map fst (fst (validationWatcher_start F deepEqual formHandle newId
        (exampleForm [(''a'', Single 0), (''b'', Single 1)]
           [freshField ''a'' (VStr ''same'') [],
            (freshField ''b'' (VStr ''old'') []) \<lparr> field_value := VStr ''new'' \<rparr>]) w))
       = [1]"
  by (simp add: freshField_def isUnequal_def notIdentical_def validationWatcher_start_def
      unequalValues_def getAllFields_def plainFields_def nestedFields_def exampleForm_def
      newFormState_def createValidateFieldFunction_def Let_def validate_start_def
      split: prod.splits)

section \<open>Properties of form construction\<close>



























end
